theory Spec2Isabelle
  imports Main "HOL-Library.AList" "HOL-Library.Word"
begin

section \<open>The configuration lexer of syslog-ng (lib/cfg-lexer.c)\<close>

text \<open>
  A shallow embedding of the lexer facade: the context stack, keyword resolution, back-tick
  substitution, the block generator registry, token blocks, the token pump
  \<open>cfg_lexer_lex\<close> and user defined blocks. C strings are \<open>string\<close>s (a C string holds
  no NUL character, and none of the functions below is meant for a string that does);
  a pointer that may be NULL is an \<open>option\<close>. The suppression counter, a \<open>gint\<close> that
  is incremented and decremented, is a 32-bit word read as signed (\<open>sint\<close>), so that
  an increment at the largest value wraps to the smallest; the other \<open>gint\<close> values
  (contexts, tokens, versions) are only stored and compared and are \<open>int\<close>s.
\<close>

subsection \<open>Constants of the headers\<close>

text \<open>
  Modelled from the spec: the context enumeration of cfg-lexer.h, which is not among the
  sources. The spec lists its values in this order and gives \<open>0\<close> as the value of
  an empty context stack (also "any" for a generator), so the named contexts count from 1.
\<close>

definition LL_CONTEXT_ROOT :: int where "LL_CONTEXT_ROOT = 1"
definition LL_CONTEXT_DESTINATION :: int where "LL_CONTEXT_DESTINATION = 2"
definition LL_CONTEXT_SOURCE :: int where "LL_CONTEXT_SOURCE = 3"
definition LL_CONTEXT_PARSER :: int where "LL_CONTEXT_PARSER = 4"
definition LL_CONTEXT_REWRITE :: int where "LL_CONTEXT_REWRITE = 5"
definition LL_CONTEXT_FILTER :: int where "LL_CONTEXT_FILTER = 6"
definition LL_CONTEXT_LOG :: int where "LL_CONTEXT_LOG = 7"
definition LL_CONTEXT_BLOCK_DEF :: int where "LL_CONTEXT_BLOCK_DEF = 8"
definition LL_CONTEXT_BLOCK_REF :: int where "LL_CONTEXT_BLOCK_REF = 9"
definition LL_CONTEXT_BLOCK_CONTENT :: int where "LL_CONTEXT_BLOCK_CONTENT = 10"
definition LL_CONTEXT_BLOCK_ARG :: int where "LL_CONTEXT_BLOCK_ARG = 11"
definition LL_CONTEXT_PRAGMA :: int where "LL_CONTEXT_PRAGMA = 12"
definition LL_CONTEXT_FORMAT :: int where "LL_CONTEXT_FORMAT = 13"
definition LL_CONTEXT_TEMPLATE_FUNC :: int where "LL_CONTEXT_TEMPLATE_FUNC = 14"
definition LL_CONTEXT_INNER_DEST :: int where "LL_CONTEXT_INNER_DEST = 15"
definition LL_CONTEXT_INNER_SRC :: int where "LL_CONTEXT_INNER_SRC = 16"
definition LL_CONTEXT_CLIENT_PROTO :: int where "LL_CONTEXT_CLIENT_PROTO = 17"
definition LL_CONTEXT_SERVER_PROTO :: int where "LL_CONTEXT_SERVER_PROTO = 18"

text \<open>
  Modelled from the spec: the token identifiers of the generated cfg-grammar.h, which is
  not among the sources. The spec names them as different kinds of token (identifier,
  string, keyword token, pragma marker, the \<open>include\<close> keyword, the error sentinel); the
  numbers are the grammar's, and only that they differ from each other and from the
  character \<open>;\<close> is used.
\<close>

definition KW_INCLUDE :: int where "KW_INCLUDE = 10006"
definition LL_IDENTIFIER :: int where "LL_IDENTIFIER = 10421"
definition LL_STRING :: int where "LL_STRING = 10424"
definition LL_TOKEN :: int where "LL_TOKEN = 10425"
definition LL_PRAGMA :: int where "LL_PRAGMA = 10427"
definition LL_ERROR :: int where "LL_ERROR = 10429"

text \<open>Modelled from the spec: the spelling of the sentinel entry \<open>CFG_KEYWORD_STOP\<close>.\<close>

definition CFG_KEYWORD_STOP :: string where "CFG_KEYWORD_STOP = ''@STOP@''"

text \<open>Modelled from the spec: the legacy version \<open>VERSION_VALUE_2_1\<close>, major 2, minor 1.\<close>

definition VERSION_VALUE_2_1 :: int where "VERSION_VALUE_2_1 = 513"

subsection \<open>Data\<close>

datatype kw_status = KWS_NORMAL | KWS_OBSOLETE

record CfgLexerKeyword =
  kw_name :: string
  kw_token :: int
  kw_req_version :: int
  kw_explain :: string
  kw_status :: kw_status

text \<open>
  A keyword table is the array up to its terminating entry (the one whose \<open>kw_name\<close> is
  NULL). A context frame holds its table by value; that two frames may point at one array
  is not modelled (only the \<open>kw_status\<close> of a matched entry is ever written).
\<close>

record CfgLexerContext =
  ctx_type :: int
  ctx_keywords :: "CfgLexerKeyword list option"
  ctx_desc :: string

text \<open>
  \<open>YYLTYPE\<close>: the \<open>level\<close> pointer is the index of the include level it points to.
  \<open>YYSTYPE\<close>: the members of its union that the lexer reads and writes.
\<close>

record YYLTYPE =
  first_line :: int
  first_column :: int
  last_line :: int
  last_column :: int
  level :: nat

record YYSTYPE =
  yy_type :: int
  yy_token :: int
  yy_cptr :: string

record CfgIncludeLevel =
  level_name :: string
  lloc :: YYLTYPE

record CfgTokenBlock =
  pos :: nat
  tokens :: "YYSTYPE list"

text \<open>
  \<open>CfgArgs\<close> wraps a hash table from keys to values. It is the list of its entries, keys
  distinct, in the order \<open>g_hash_table_foreach\<close> visits them.
\<close>

type_synonym CfgArgs = "(string \<times> string) list"

text \<open>
  A block generator. The callback, its data and the destructor of the data are pointers;
  they are kept as opaque addresses, and calling them is an effect of the environment.
\<close>

record CfgBlockGenerator =
  gen_context :: int
  gen_name :: string
  gen_generator :: nat
  gen_generator_data :: nat
  gen_generator_data_free :: nat

record GlobalConfig =
  version :: int
  parsed_version :: int

datatype msg_prio = EVT_PRI_DEBUG | EVT_PRI_WARNING | EVT_PRI_ERR

datatype evt_tag =
  evt_tag_str string "string option"
| evt_tag_printf string string "int list"
| evt_tag_id string

type_synonym message = "msg_prio \<times> string \<times> evt_tag list"

text \<open>
  The lexer object, with what the code reaches through globals beside it: the process-wide
  \<open>configuration\<close>, the message channel (\<open>msgs\<close>, oldest first) and the calls made through
  \<open>GDestroyNotify\<close> pointers (\<open>destroy_calls\<close>: destructor and argument). \<open>state\<close> is the
  handle of the generated scanner.
\<close>

record CfgLexer =
  state :: nat
  context_stack :: "CfgLexerContext list"
  token_blocks :: "CfgTokenBlock list"
  generators :: "CfgBlockGenerator list"
  include_stack :: "CfgIncludeLevel list"
  include_depth :: nat
  preprocess_suppress_tokens :: "32 word"
  preprocess_output :: string
  token_text :: string
  token_pretext :: string
  globals :: CfgArgs
  configuration :: GlobalConfig
  msgs :: "message list"
  destroy_calls :: "(nat \<times> nat) list"

text \<open>
  A user defined block: \<open>_CfgBlock\<close>.
\<close>

record CfgBlock =
  content :: string
  arg_defs :: CfgArgs

datatype lexer_error = AssertionFailed

subsection \<open>The context stack\<close>

definition cfg_lexer_get_context_type :: "CfgLexer \<Rightarrow> int" where
  "cfg_lexer_get_context_type self =
     (case context_stack self of [] \<Rightarrow> 0 | c # _ \<Rightarrow> ctx_type c)"

definition cfg_lexer_get_context_description :: "CfgLexer \<Rightarrow> string" where
  "cfg_lexer_get_context_description self =
     (case context_stack self of [] \<Rightarrow> ''configuration'' | c # _ \<Rightarrow> ctx_desc c)"


definition cfg_lexer_pop_context :: "CfgLexer \<Rightarrow> CfgLexer" where
  "cfg_lexer_pop_context self =
     (case context_stack self of [] \<Rightarrow> self | _ # cs \<Rightarrow> self\<lparr>context_stack := cs\<rparr>)"

subsection \<open>The table of context names\<close>

text \<open>
  \<open>lexer_contexts\<close> has designated initialisers: the array runs to the largest index
  named, and a slot no initialiser names is NULL. No initialiser names
  \<open>LL_CONTEXT_BLOCK_ARG\<close>.
\<close>

definition lexer_contexts :: "string option list" where
  "lexer_contexts =
     [None, Some ''root'', Some ''destination'', Some ''source'', Some ''parser'',
      Some ''rewrite'', Some ''filter'', Some ''log'', Some ''block-def'',
      Some ''block-ref'', Some ''block-content'', None, Some ''pragma'', Some ''format'',
      Some ''template-func'', Some ''inner-dest'', Some ''inner-src'',
      Some ''client-proto'', Some ''server-proto'']"

text \<open>The loop of \<open>cfg_lexer_lookup_context_type_by_name\<close>, from index \<open>i\<close> on.\<close>

fun lookup_context_type_from :: "int \<Rightarrow> string option list \<Rightarrow> string \<Rightarrow> int" where
  "lookup_context_type_from i [] name = 0"
| "lookup_context_type_from i (c # cs) name =
     (if c \<noteq> None \<and> the c = name then i else lookup_context_type_from (i + 1) cs name)"

definition cfg_lexer_lookup_context_type_by_name :: "string \<Rightarrow> int" where
  "cfg_lexer_lookup_context_type_by_name name = lookup_context_type_from 0 lexer_contexts name"

text \<open>
  The assertion compares the \<open>gint\<close> with an unsigned size, so a negative type fails it
  too. The result of a passing call is the slot, NULL (\<open>None\<close>) included.
\<close>

definition cfg_lexer_lookup_context_name_by_type :: "int \<Rightarrow> lexer_error + string option" where
  "cfg_lexer_lookup_context_name_by_type type =
     (if 0 \<le> type \<and> type < int (length lexer_contexts)
      then Inr (lexer_contexts ! nat type) else Inl AssertionFailed)"

subsection \<open>What the sources call and do not contain\<close>

text \<open>
  The functions of this repository that the lexer calls and that are not among its
  sources are parameters: \<open>normalize_key\<close>, the process environment, \<open>cfg_set_version\<close>,
  the generated scanner (\<open>_cfg_lexer_lex\<close>, with \<open>cfg_lexer_start_block_state\<close>), the
  grammar (\<open>cfg_parser_parse\<close> with the pragma parser and with the block reference
  parser, whose result is the argument list on success), the include stack
  (\<open>cfg_lexer_include_file\<close>, \<open>cfg_lexer_include_buffer\<close>) and the call of a generator
  callback by its address. Each takes the lexer and returns it as it leaves it, but
  \<open>cfg_set_version\<close>, which is passed the configuration and not the lexer: it returns
  the configuration and the messages it sends.
\<close>

record lexer_env =
  normalize_key :: "string \<Rightarrow> string"
  g_getenv :: "string \<Rightarrow> string option"
  cfg_set_version :: "GlobalConfig \<Rightarrow> int \<Rightarrow> GlobalConfig \<times> message list"
  cfg_lexer_start_block_state :: "CfgLexer \<Rightarrow> string \<Rightarrow> CfgLexer"
  raw_cfg_lexer_lex :: "CfgLexer \<Rightarrow> YYSTYPE \<Rightarrow> YYLTYPE \<Rightarrow> int \<times> YYSTYPE \<times> YYLTYPE \<times> CfgLexer"
  pragma_parser :: "CfgLexer \<Rightarrow> bool \<times> CfgLexer"
  block_ref_parser :: "CfgLexer \<Rightarrow> CfgArgs option \<times> CfgLexer"
  cfg_lexer_include_file :: "CfgLexer \<Rightarrow> string \<Rightarrow> bool \<times> CfgLexer"
  cfg_lexer_include_buffer :: "CfgLexer \<Rightarrow> string \<Rightarrow> string \<Rightarrow> nat \<Rightarrow> bool \<times> CfgLexer"
  call_generator :: "nat \<Rightarrow> CfgLexer \<Rightarrow> int \<Rightarrow> string \<Rightarrow> CfgArgs \<Rightarrow> nat \<Rightarrow> bool \<times> CfgLexer"

text \<open>
  Modelled from the spec: \<open>cfg_check_current_config_version\<close> of cfg.h, which is not among
  the sources. The check fails when the required version exceeds the configuration's
  active version.
\<close>

definition cfg_check_current_config_version :: "GlobalConfig \<Rightarrow> int \<Rightarrow> bool" where
  "cfg_check_current_config_version cfg req = (\<not> version cfg < req)"

subsection \<open>Argument maps\<close>

definition cfg_args_set :: "lexer_env \<Rightarrow> CfgArgs \<Rightarrow> string \<Rightarrow> string \<Rightarrow> CfgArgs" where
  "cfg_args_set E self name val = AList.update (normalize_key E name) val self"

definition cfg_args_get :: "lexer_env \<Rightarrow> CfgArgs \<Rightarrow> string \<Rightarrow> string option" where
  "cfg_args_get E self name =
     (case map_of self name of
        Some v \<Rightarrow> Some v
      | None \<Rightarrow> map_of self (normalize_key E name))"

subsection \<open>Back-tick substitution\<close>

text \<open>
  The chain of \<open>else if\<close>s that resolves a reference: \<open>args\<close>, \<open>defs\<close>, \<open>globals\<close> (each
  skipped when NULL), then the process environment. The sources are read as built
  without \<open>_WIN32\<close>.
\<close>

definition subst_lookup ::
  "lexer_env \<Rightarrow> CfgArgs option \<Rightarrow> CfgArgs option \<Rightarrow> CfgArgs option \<Rightarrow> string \<Rightarrow> string option" where
  "subst_lookup E globs defs args ref =
     (case (case args of None \<Rightarrow> None | Some a \<Rightarrow> cfg_args_get E a ref) of
        Some arg \<Rightarrow> Some arg
      | None \<Rightarrow>
     (case (case defs of None \<Rightarrow> None | Some d \<Rightarrow> cfg_args_get E d ref) of
        Some arg \<Rightarrow> Some arg
      | None \<Rightarrow>
     (case (case globs of None \<Rightarrow> None | Some g \<Rightarrow> cfg_args_get E g ref) of
        Some arg \<Rightarrow> Some arg
      | None \<Rightarrow> g_getenv E ref)))"

text \<open>
  The \<open>while\<close> loop over the buffer. \<open>ref\<close> is the text between \<open>ref_start\<close> and \<open>p\<close>,
  \<open>result\<close> the string built so far; the loop ends at the NUL, where an open reference
  makes the function return NULL.
\<close>

fun subst_args_loop ::
  "lexer_env \<Rightarrow> CfgArgs option \<Rightarrow> CfgArgs option \<Rightarrow> CfgArgs option \<Rightarrow>
   bool \<Rightarrow> string \<Rightarrow> string \<Rightarrow> string \<Rightarrow> string option" where
  "subst_args_loop E globs defs args backtick ref result [] =
     (if backtick then None else Some result)"
| "subst_args_loop E globs defs args backtick ref result (c # p) =
     (if \<not> backtick \<and> c = CHR 0x60 then
        subst_args_loop E globs defs args True [] result p
      else if backtick \<and> c = CHR 0x60 then
        (if ref = [] then
           subst_args_loop E globs defs args False ref (result @ [CHR 0x60]) p
         else
           subst_args_loop E globs defs args False ref
             (result @ (case subst_lookup E globs defs args ref of
                          Some arg \<Rightarrow> arg | None \<Rightarrow> [])) p)
      else if \<not> backtick then
        subst_args_loop E globs defs args backtick ref (result @ [c]) p
      else
        subst_args_loop E globs defs args backtick (ref @ [c]) result p)"

text \<open>The result with \<open>*length\<close>, or \<open>None\<close> for the NULL return.\<close>

definition cfg_lexer_subst_args ::
  "lexer_env \<Rightarrow> CfgArgs option \<Rightarrow> CfgArgs option \<Rightarrow> CfgArgs option \<Rightarrow> string \<Rightarrow>
   (string \<times> nat) option" where
  "cfg_lexer_subst_args E globs defs args cptr =
     (case subst_args_loop E globs defs args False [] [] cptr of
        None \<Rightarrow> None
      | Some result \<Rightarrow> Some (result, length result))"

subsection \<open>Keyword resolution\<close>

text \<open>
  The inner \<open>for\<close> loop over the characters and the test after it: the loop runs while
  both strings last and the characters agree (\<open>-\<close> and \<open>_\<close> of the token agree with \<open>_\<close>
  of the keyword only), and the entry matches when both strings end together.
\<close>

fun kw_match :: "string \<Rightarrow> string \<Rightarrow> bool" where
  "kw_match [] [] = True"
| "kw_match [] (k # ks) = False"
| "kw_match (t # ts) [] = False"
| "kw_match (t # ts) (k # ks) =
     (if t = CHR ''-'' \<or> t = CHR ''_'' then
        (if k \<noteq> CHR ''_'' then False else kw_match ts ks)
      else if t \<noteq> k then False
      else kw_match ts ks)"

text \<open>
  The warning about a reserved word. The tags are a NULL terminated argument list, so
  without a location the NULL in the place of the file name ends it.
\<close>

definition reserved_word_warning ::
  "CfgLexer \<Rightarrow> YYLTYPE option \<Rightarrow> CfgLexerKeyword \<Rightarrow> message" where
  "reserved_word_warning self yylloc k =
     (EVT_PRI_WARNING,
      ''WARNING: Your configuration uses a newly introduced reserved word as identifier, please use a different name or enclose it in quotes'',
      [evt_tag_str ''keyword'' (Some (kw_name k)),
       evt_tag_printf ''config-version'' ''%d.%d''
         [drop_bit 8 (version (configuration self)), take_bit 8 (version (configuration self))],
       evt_tag_printf ''version'' ''%d.%d''
         [drop_bit 8 (kw_req_version k), take_bit 8 (kw_req_version k)]] @
      (case yylloc of
         None \<Rightarrow> []
       | Some l \<Rightarrow>
           [evt_tag_str ''filename'' (Some (level_name (include_stack self ! level l))),
            evt_tag_printf ''line'' ''%d:%d'' [first_line l, first_column l],
            evt_tag_id ''MSG_RESERVED_WORD_USED'']))"

definition obsolete_keyword_warning :: "CfgLexerKeyword \<Rightarrow> message" where
  "obsolete_keyword_warning k =
     (EVT_PRI_WARNING,
      ''Your configuration file uses an obsoleted keyword, please update your configuration'',
      [evt_tag_str ''keyword'' (Some (kw_name k)),
       evt_tag_str ''change'' (Some (kw_explain k)),
       evt_tag_id ''MSG_OBSOLATED_KEYWORD_USED''])"

text \<open>
  How the \<open>for\<close> loop over one keyword table ends: it returns the identifier (the stop
  entry), it returns a keyword token (the table with the entry's status written, and the
  messages sent), or it is left, by its \<open>break\<close> or at the end of the table, for the
  next context (with the messages sent).
\<close>

datatype keywords_result =
  KwReturnIdentifier
| KwReturnToken int "CfgLexerKeyword list" "message list"
| KwNextContext "message list"

fun lookup_keywords ::
  "CfgLexer \<Rightarrow> YYLTYPE option \<Rightarrow> string \<Rightarrow> CfgLexerKeyword list \<Rightarrow> keywords_result" where
  "lookup_keywords self yylloc token [] = KwNextContext []"
| "lookup_keywords self yylloc token (k # ks) =
     (if kw_name k = CFG_KEYWORD_STOP then KwReturnIdentifier
      else if kw_match token (kw_name k) then
        (if \<not> cfg_check_current_config_version (configuration self) (kw_req_version k) then
           KwNextContext [reserved_word_warning self yylloc k]
         else
           KwReturnToken (kw_token k) (k\<lparr>kw_status := KWS_NORMAL\<rparr> # ks)
             (case kw_status k of
                KWS_OBSOLETE \<Rightarrow> [obsolete_keyword_warning k]
              | KWS_NORMAL \<Rightarrow> []))
      else
        (case lookup_keywords self yylloc token ks of
           KwReturnToken tok ks' ms \<Rightarrow> KwReturnToken tok (k # ks') ms
         | r \<Rightarrow> r))"

text \<open>
  The \<open>while\<close> loop over the context stack: the token returned, \<open>yylval\<close>, the stack with
  the statuses written, and the messages sent.
\<close>

fun lookup_contexts ::
  "CfgLexer \<Rightarrow> YYSTYPE \<Rightarrow> YYLTYPE option \<Rightarrow> string \<Rightarrow> CfgLexerContext list \<Rightarrow>
   int \<times> YYSTYPE \<times> CfgLexerContext list \<times> message list" where
  "lookup_contexts self yylval yylloc token [] =
     (LL_IDENTIFIER, yylval\<lparr>yy_cptr := token\<rparr>, [], [])"
| "lookup_contexts self yylval yylloc token (c # l) =
     (case ctx_keywords c of
        None \<Rightarrow>
          (case lookup_contexts self yylval yylloc token l of
             (tok, v, l', ms) \<Rightarrow> (tok, v, c # l', ms))
      | Some keywords \<Rightarrow>
          (case lookup_keywords self yylloc token keywords of
             KwReturnIdentifier \<Rightarrow> (LL_IDENTIFIER, yylval\<lparr>yy_cptr := token\<rparr>, c # l, [])
           | KwReturnToken tok keywords' ms \<Rightarrow>
               (tok, yylval\<lparr>yy_type := LL_TOKEN, yy_token := tok\<rparr>,
                c\<lparr>ctx_keywords := Some keywords'\<rparr> # l, ms)
           | KwNextContext ms \<Rightarrow>
               (case lookup_contexts self yylval yylloc token l of
                  (tok, v, l', ms') \<Rightarrow> (tok, v, c # l', ms @ ms'))))"

definition cfg_lexer_lookup_keyword ::
  "CfgLexer \<Rightarrow> YYSTYPE \<Rightarrow> YYLTYPE option \<Rightarrow> string \<Rightarrow> int \<times> YYSTYPE \<times> CfgLexer" where
  "cfg_lexer_lookup_keyword self yylval yylloc token =
     (case lookup_contexts self yylval yylloc token (context_stack self) of
        (tok, v, l, ms) \<Rightarrow> (tok, v, self\<lparr>context_stack := l, msgs := msgs self @ ms\<rparr>))"

subsection \<open>Block generators\<close>

text \<open>The \<open>for\<close> loop of \<open>cfg_lexer_find_generator\<close> over the list of generators.\<close>

fun find_generator_loop ::
  "CfgBlockGenerator list \<Rightarrow> int \<Rightarrow> string \<Rightarrow> CfgBlockGenerator option" where
  "find_generator_loop [] context name = None"
| "find_generator_loop (gen # l) context name =
     (if (gen_context gen = 0 \<or> gen_context gen = context) \<and> gen_name gen = name
      then Some gen
      else find_generator_loop l context name)"

definition cfg_lexer_find_generator ::
  "CfgLexer \<Rightarrow> int \<Rightarrow> string \<Rightarrow> CfgBlockGenerator option" where
  "cfg_lexer_find_generator self context name =
     find_generator_loop (generators self) context name"

text \<open>
  Registration. The debug message is built from
  \<open>cfg_lexer_lookup_context_name_by_type context\<close>, whose assertion stops the program
  for a context outside the table; the call through \<open>generator_data_free\<close> is recorded.
\<close>

definition cfg_lexer_register_block_generator ::
  "CfgLexer \<Rightarrow> int \<Rightarrow> string \<Rightarrow> nat \<Rightarrow> nat \<Rightarrow> nat \<Rightarrow> lexer_error + CfgLexer" where
  "cfg_lexer_register_block_generator self context name generator generator_data
       generator_data_free =
     (case cfg_lexer_find_generator self context name of
        Some _ \<Rightarrow>
          (case cfg_lexer_lookup_context_name_by_type context of
             Inl e \<Rightarrow> Inl e
           | Inr context_name \<Rightarrow>
               Inr (self\<lparr>msgs := msgs self @
                      [(EVT_PRI_DEBUG,
                        ''Attempted to register the same generator multiple times, ignoring'',
                        [evt_tag_str ''context'' context_name,
                         evt_tag_str ''name'' (Some name)])],
                    destroy_calls := destroy_calls self @
                      [(generator_data_free, generator_data)]\<rparr>))
      | None \<Rightarrow>
          Inr (self\<lparr>generators := generators self @
                 [\<lparr>gen_context = context, gen_name = name, gen_generator = generator,
                   gen_generator_data = generator_data,
                   gen_generator_data_free = generator_data_free\<rparr>]\<rparr>))"

definition cfg_lexer_generate_block ::
  "lexer_env \<Rightarrow> CfgLexer \<Rightarrow> int \<Rightarrow> string \<Rightarrow> CfgBlockGenerator \<Rightarrow> CfgArgs \<Rightarrow> bool \<times> CfgLexer" where
  "cfg_lexer_generate_block E self context name gen args =
     call_generator E (gen_generator gen) self context name args (gen_generator_data gen)"

subsection \<open>Token blocks\<close>



definition cfg_token_block_get_token :: "CfgTokenBlock \<Rightarrow> YYSTYPE option \<times> CfgTokenBlock" where
  "cfg_token_block_get_token self =
     (if pos self < length (tokens self)
      then (Some (tokens self ! pos self), self\<lparr>pos := pos self + 1\<rparr>)
      else (None, self))"



subsection \<open>The token pump\<close>

text \<open>
  The \<open>while\<close> loop over the pending token blocks: the first token a block still
  holds, with the list as the loop leaves it; an exhausted block is unlinked.
\<close>

fun next_injected_token :: "CfgTokenBlock list \<Rightarrow> YYSTYPE option \<times> CfgTokenBlock list" where
  "next_injected_token [] = (None, [])"
| "next_injected_token (block # l) =
     (case cfg_token_block_get_token block of
        (Some tk, block') \<Rightarrow> (Some tk, block' # l)
      | (None, block') \<Rightarrow> next_injected_token l)"

text \<open>
  From \<open>relex\<close> to \<open>exit\<close>: the token, \<open>yylval\<close>, \<open>yylloc\<close>, \<open>injected\<close> and the lexer. An
  injected token is copied (its string duplicated) and gets the location of the current
  include level; otherwise the scanner is called.
\<close>

definition lex_fetch ::
  "lexer_env \<Rightarrow> CfgLexer \<Rightarrow> YYSTYPE \<Rightarrow> YYLTYPE \<Rightarrow> int \<times> YYSTYPE \<times> YYLTYPE \<times> bool \<times> CfgLexer" where
  "lex_fetch E self yylval yylloc =
     (case next_injected_token (token_blocks self) of
        (Some tk, blocks) \<Rightarrow>
          (if yy_type tk = LL_TOKEN then yy_token tk else yy_type tk,
           tk,
           lloc (include_stack self ! include_depth self),
           True,
           self\<lparr>token_blocks := blocks\<rparr>)
      | (None, blocks) \<Rightarrow>
          (let self1 = self\<lparr>token_blocks := blocks\<rparr>;
               self2 =
                 (if cfg_lexer_get_context_type self1 = LL_CONTEXT_BLOCK_CONTENT
                  then cfg_lexer_start_block_state E self1 ''{}''
                  else if cfg_lexer_get_context_type self1 = LL_CONTEXT_BLOCK_ARG
                  then cfg_lexer_start_block_state E self1 ''()''
                  else self1);
               self3 = self2\<lparr>token_text := [], token_pretext := []\<rparr>
           in case raw_cfg_lexer_lex E self3 (yylval\<lparr>yy_type := 0\<rparr>) yylloc of
                (tok, yylval', yylloc', self4) \<Rightarrow>
                  (tok,
                   (if yy_type yylval' = 0 then yylval'\<lparr>yy_type := tok\<rparr> else yylval'),
                   yylloc',
                   False,
                   self4\<lparr>preprocess_output :=
                           preprocess_output self4 @ token_pretext self4\<rparr>)))"

text \<open>
  The last two branches of the chain at \<open>exit\<close> (the version of the configuration) and
  the echo of the token text, for a token that no earlier branch took.
\<close>

definition no_version_warning :: message where
  "no_version_warning =
     (EVT_PRI_WARNING,
      ''WARNING: Configuration file has no version number, assuming syslog-ng 2.1 format. Please add @version: maj.min to the beginning of the file'',
      [])"

definition lex_finish :: "lexer_env \<Rightarrow> bool \<Rightarrow> CfgLexer \<Rightarrow> CfgLexer" where
  "lex_finish E injected self =
     (let self1 =
            (if version (configuration self) = 0 \<and> parsed_version (configuration self) \<noteq> 0
             then (case cfg_set_version E (configuration self)
                          (parsed_version (configuration self)) of
                     (cfg, ms) \<Rightarrow> self\<lparr>configuration := cfg, msgs := msgs self @ ms\<rparr>)
             else if version (configuration self) = 0 \<and>
                     parsed_version (configuration self) = 0 \<and>
                     cfg_lexer_get_context_type self \<noteq> LL_CONTEXT_PRAGMA
             then (case cfg_set_version E (configuration self) VERSION_VALUE_2_1 of
                     (cfg, ms) \<Rightarrow>
                       self\<lparr>configuration := cfg,
                            msgs := msgs self @ no_version_warning # ms\<rparr>)
             else self)
      in if \<not> injected \<and> preprocess_suppress_tokens self1 = 0
         then self1\<lparr>preprocess_output := preprocess_output self1 @ token_text self1\<rparr>
         else self1)"

definition suppress_inc :: "CfgLexer \<Rightarrow> CfgLexer" where
  "suppress_inc self =
     self\<lparr>preprocess_suppress_tokens := preprocess_suppress_tokens self + 1\<rparr>"

definition suppress_dec :: "CfgLexer \<Rightarrow> CfgLexer" where
  "suppress_dec self =
     self\<lparr>preprocess_suppress_tokens := preprocess_suppress_tokens self - 1\<rparr>"

text \<open>
  The result of a call: the token returned, \<open>yylval\<close> and \<open>yylloc\<close> as the call leaves
  them, the lexer, and the values the call wrote to \<open>preprocess_suppress_tokens\<close>, in
  the order of the writes (a history of the counter; the recursive calls' writes are
  part of it).
\<close>

type_synonym lex_result = "int \<times> YYSTYPE \<times> YYLTYPE \<times> CfgLexer \<times> 32 word list"

definition after_writes :: "32 word list \<Rightarrow> lex_result option \<Rightarrow> lex_result option" where
  "after_writes ws r =
     (case r of
        None \<Rightarrow> None
      | Some (tok, yylval, yylloc, self, ws') \<Rightarrow> Some (tok, yylval, yylloc, self, ws @ ws'))"

text \<open>
  \<open>cfg_lexer_lex\<close>. The function loops (\<open>goto relex\<close>) and calls itself as long as
  pragmas, includes and block references follow each other, so it takes fuel: one unit
  for each pass from \<open>relex\<close>, and \<open>None\<close> when the fuel is used up.
\<close>

fun cfg_lexer_lex ::
  "lexer_env \<Rightarrow> nat \<Rightarrow> CfgLexer \<Rightarrow> YYSTYPE \<Rightarrow> YYLTYPE \<Rightarrow> lex_result option" where
  "cfg_lexer_lex E 0 self yylval yylloc = None"
| "cfg_lexer_lex E (Suc n) self yylval yylloc =
     (case lex_fetch E self yylval yylloc of
        (tok, yylval1, yylloc1, injected, self1) \<Rightarrow>
     if tok = LL_PRAGMA then
       (case pragma_parser E
               (self1\<lparr>preprocess_output := preprocess_output self1 @ ''@''\<rparr>) of
          (ok, self2) \<Rightarrow>
            if \<not> ok then Some (LL_ERROR, yylval1, yylloc1, self2, [])
            else cfg_lexer_lex E n self2 yylval1 yylloc1)
     else if tok = KW_INCLUDE \<and> cfg_lexer_get_context_type self1 \<noteq> LL_CONTEXT_PRAGMA then
       (case cfg_lexer_lex E n (suppress_inc self1) yylval1 yylloc1 of
          None \<Rightarrow> None
        | Some (tok2, yylval2, yylloc2, self2, ws2) \<Rightarrow>
            if tok2 \<noteq> LL_STRING \<and> tok2 \<noteq> LL_IDENTIFIER then
              Some (LL_ERROR, yylval2, yylloc2, suppress_dec self2,
                    preprocess_suppress_tokens (suppress_inc self1) # ws2 @
                    [preprocess_suppress_tokens (suppress_dec self2)])
            else
              (case cfg_lexer_lex E n self2 yylval2 yylloc2 of
                 None \<Rightarrow> None
               | Some (tok3, yylval3, yylloc3, self3, ws3) \<Rightarrow>
                   if tok3 \<noteq> 59 then
                     Some (LL_ERROR, yylval3, yylloc3, suppress_dec self3,
                           preprocess_suppress_tokens (suppress_inc self1) # ws2 @ ws3 @
                           [preprocess_suppress_tokens (suppress_dec self3)])
                   else
                     (case cfg_lexer_include_file E self3 (yy_cptr yylval2) of
                        (ok, self4) \<Rightarrow>
                          if \<not> ok then
                            Some (LL_ERROR, yylval3, yylloc3, suppress_dec self4,
                                  preprocess_suppress_tokens (suppress_inc self1) # ws2 @ ws3 @
                                  [preprocess_suppress_tokens (suppress_dec self4)])
                          else
                            after_writes
                              (preprocess_suppress_tokens (suppress_inc self1) # ws2 @ ws3 @
                               [preprocess_suppress_tokens (suppress_dec self4)])
                              (cfg_lexer_lex E n (suppress_dec self4) yylval3 yylloc3))))
     else
       (case (if tok = LL_IDENTIFIER
              then cfg_lexer_find_generator self1 (cfg_lexer_get_context_type self1)
                     (yy_cptr yylval1)
              else None) of
          Some gen \<Rightarrow>
       (case block_ref_parser E (suppress_inc self1) of
          (Some args, self2) \<Rightarrow>
            (case cfg_lexer_generate_block E (suppress_dec self2)
                    (cfg_lexer_get_context_type (suppress_dec self2))
                    (yy_cptr yylval1) gen args of
               (success, self3) \<Rightarrow>
                 if success then
                   after_writes
                     [preprocess_suppress_tokens (suppress_inc self1),
                      preprocess_suppress_tokens (suppress_dec self2)]
                     (cfg_lexer_lex E n self3 yylval1 yylloc1)
                 else
                   Some (LL_ERROR, yylval1, yylloc1, self3,
                         [preprocess_suppress_tokens (suppress_inc self1),
                          preprocess_suppress_tokens (suppress_dec self2)]))
        | (None, self2) \<Rightarrow>
            Some (LL_ERROR, yylval1, yylloc1, suppress_dec self2,
                  [preprocess_suppress_tokens (suppress_inc self1),
                   preprocess_suppress_tokens (suppress_dec self2)]))
        | None \<Rightarrow>
            Some (tok, yylval1, yylloc1, lex_finish E injected self1, [])))"

subsection \<open>User defined blocks\<close>

definition cfg_args_foreach :: "CfgArgs \<Rightarrow> (string \<Rightarrow> string \<Rightarrow> 'u \<Rightarrow> 'u) \<Rightarrow> 'u \<Rightarrow> 'u" where
  "cfg_args_foreach self func user_data = fold (\<lambda>(k, v). func k v) self user_data"

text \<open>
  The callback of \<open>_fill_varargs\<close> (named \<open>_resolve_unknown_blockargs_as_varargs\<close> in the
  source), on the string it appends to.
\<close>

definition resolve_unknown_blockargs_as_varargs ::
  "lexer_env \<Rightarrow> CfgArgs \<Rightarrow> string \<Rightarrow> string \<Rightarrow> string \<Rightarrow> string" where
  "resolve_unknown_blockargs_as_varargs E defs key val varargs =
     (if cfg_args_get E defs key = None
      then varargs @ key @ ''('' @ val @ '') ''
      else varargs)"

text \<open>\<open>_fill_varargs\<close> of the source.\<close>

definition fill_varargs :: "lexer_env \<Rightarrow> CfgBlock \<Rightarrow> CfgArgs \<Rightarrow> CfgArgs" where
  "fill_varargs E block args =
     (let varargs =
            cfg_args_foreach args (resolve_unknown_blockargs_as_varargs E (arg_defs block)) []
      in cfg_args_set E args ''__VARARGS__'' varargs)"

text \<open>
  \<open>cfg_block_generate\<close>: its result, the lexer and \<open>args\<close> as it leaves them. The name of
  the buffer is printed into 256 bytes; a NULL context name prints as \<open>(null)\<close>.
\<close>

definition cfg_block_generate ::
  "lexer_env \<Rightarrow> CfgLexer \<Rightarrow> int \<Rightarrow> string \<Rightarrow> CfgArgs \<Rightarrow> CfgBlock \<Rightarrow>
   lexer_error + bool \<times> CfgLexer \<times> CfgArgs" where
  "cfg_block_generate E lexer context name args block =
     (case cfg_lexer_lookup_context_name_by_type context of
        Inl e \<Rightarrow> Inl e
      | Inr context_name \<Rightarrow>
          (let buf = take 255 ((case context_name of None \<Rightarrow> ''(null)'' | Some s \<Rightarrow> s) @
                               '' block '' @ name);
               args' = fill_varargs E block args
           in case cfg_lexer_subst_args E (Some (globals lexer)) (Some (arg_defs block))
                     (Some args') (content block) of
                None \<Rightarrow>
                  Inr (False,
                       lexer\<lparr>msgs := msgs lexer @
                         [(EVT_PRI_WARNING,
                           ''Syntax error while resolving backtick references in block, missing closing '`' character'',
                           [evt_tag_str ''context'' context_name,
                            evt_tag_str ''block'' (Some name)])]\<rparr>,
                       args')
              | Some (val, len) \<Rightarrow>
                  (case cfg_lexer_include_buffer E lexer buf val len of
                     (ok, lexer') \<Rightarrow> Inr (ok, lexer', args'))))"

subsection \<open>An environment and a lexer for the examples\<close>

text \<open>
  Modelled from the spec: \<open>normalize_key\<close>, which is not among the sources. The key is
  put in lower case (ASCII) and each \<open>-\<close> becomes \<open>_\<close>.
\<close>

definition ascii_tolower :: "char \<Rightarrow> char" where
  "ascii_tolower c =
     (if 65 \<le> (of_char c :: nat) \<and> (of_char c :: nat) \<le> 90
      then char_of (of_char c + 32 :: nat) else c)"

definition normalize_key_spec :: "string \<Rightarrow> string" where
  "normalize_key_spec key = map (\<lambda>c. if c = CHR ''-'' then CHR ''_'' else ascii_tolower c) key"

text \<open>
  A scanner that reads a script of tokens (token and text): the scanner handle counts
  the tokens read, token number \<open>i\<close> is on line \<open>i\<close>, the location is written to the
  current include level and to \<open>yylloc\<close>; past the script it returns 0 for the end of
  the input, at the location where the level stands.
\<close>

definition script_scanner ::
  "(int \<times> string) list \<Rightarrow> CfgLexer \<Rightarrow> YYSTYPE \<Rightarrow> YYLTYPE \<Rightarrow> int \<times> YYSTYPE \<times> YYLTYPE \<times> CfgLexer" where
  "script_scanner script self yylval yylloc =
     (if state self < length script then
        (let tok = fst (script ! state self);
             lexeme = snd (script ! state self);
             l = \<lparr>first_line = int (state self) + 1, first_column = 1,
                  last_line = int (state self) + 1, last_column = 1 + int (length lexeme),
                  level = include_depth self\<rparr>
         in (tok, yylval\<lparr>yy_cptr := lexeme\<rparr>, l,
             self\<lparr>state := state self + 1,
                  token_text := lexeme,
                  include_stack := (include_stack self)
                    [include_depth self :=
                       (include_stack self ! include_depth self)\<lparr>lloc := l\<rparr>]\<rparr>))
      else (0, yylval, lloc (include_stack self ! include_depth self), self))"

text \<open>
  The environment of the examples: the scripted scanner, a grammar whose sub-parses
  succeed at once, no file to include, a generator that fails, an empty process
  environment but for \<open>HOME\<close>, and a \<open>cfg_set_version\<close> that sets the active version.
\<close>

definition script_env :: "(int \<times> string) list \<Rightarrow> lexer_env" where
  "script_env script =
     \<lparr>normalize_key = normalize_key_spec,
      g_getenv = map_of [(''HOME'', ''/root'')],
      cfg_set_version = (\<lambda>cfg v. (cfg\<lparr>version := v\<rparr>, [])),
      cfg_lexer_start_block_state = (\<lambda>self delimiters. self),
      raw_cfg_lexer_lex = script_scanner script,
      pragma_parser = (\<lambda>self. (True, self)),
      block_ref_parser = (\<lambda>self. (Some [], self)),
      cfg_lexer_include_file = (\<lambda>self path. (False, self)),
      cfg_lexer_include_buffer = (\<lambda>self name buffer len. (True, self)),
      call_generator = (\<lambda>g self context name args data. (False, self))\<rparr>"

definition example_lloc :: YYLTYPE where
  "example_lloc =
     \<lparr>first_line = 1, first_column = 1, last_line = 1, last_column = 1, level = 0\<rparr>"

definition example_yylval :: YYSTYPE where
  "example_yylval = \<lparr>yy_type = 0, yy_token = 0, yy_cptr = []\<rparr>"

text \<open>
  A lexer at the start of \<open>example.conf\<close>, version 3.0 selected, with one context frame of
  the given type and keyword table.
\<close>

definition example_lexer :: "int \<Rightarrow> CfgLexerKeyword list option \<Rightarrow> CfgLexer" where
  "example_lexer type keywords =
     \<lparr>state = 0,
      context_stack = [\<lparr>ctx_type = type, ctx_keywords = keywords, ctx_desc = ''example''\<rparr>],
      token_blocks = [],
      generators = [],
      include_stack = [\<lparr>level_name = ''example.conf'', lloc = example_lloc\<rparr>],
      include_depth = 0,
      preprocess_suppress_tokens = 0,
      preprocess_output = [],
      token_text = [],
      token_pretext = [],
      globals = [],
      configuration = \<lparr>version = 768, parsed_version = 768\<rparr>,
      msgs = [],
      destroy_calls = []\<rparr>"

definition flush_lines_keyword :: CfgLexerKeyword where
  "flush_lines_keyword =
     \<lparr>kw_name = ''flush_lines'', kw_token = 10100, kw_req_version = 0, kw_explain = [],
      kw_status = KWS_NORMAL\<rparr>"




text \<open>
  A lexer with one registered generator, \<open>foo\<close> for any context, and the generator that
  a registration of \<open>foo\<close> for the source context would add.
\<close>

definition any_foo_generator :: CfgBlockGenerator where
  "any_foo_generator =
     \<lparr>gen_context = 0, gen_name = ''foo'', gen_generator = 1, gen_generator_data = 2,
      gen_generator_data_free = 3\<rparr>"

definition any_foo_lexer :: CfgLexer where
  "any_foo_lexer = (example_lexer LL_CONTEXT_ROOT None)\<lparr>generators := [any_foo_generator]\<rparr>"

text \<open>
  The value of \<open>__VARARGS__\<close> in the words of the claim: for every argument, in the
  order of iteration, whose key \<open>arg_defs\<close> does not have, \<open>name(value)\<close> and a space.
\<close>

definition varargs_spec :: "lexer_env \<Rightarrow> CfgArgs \<Rightarrow> CfgArgs \<Rightarrow> string" where
  "varargs_spec E defs args =
     concat (map (\<lambda>(key, val). key @ ''('' @ val @ '') '')
                 (filter (\<lambda>(key, val). cfg_args_get E defs key = None) args))"

definition example_block :: CfgBlock where
  "example_block = \<lparr>content = ''file(`path` `__VARARGS__`);'',
                     arg_defs = [(''path'', ''/var/log/default'')]\<rparr>"

definition example_args :: CfgArgs where
  "example_args = [(''path'', ''/tmp/x''), (''__varargs__'', ''old''), (''flags'', ''no_parse'')]"





section \<open>Properties\<close>

lemmas ll_context_defs =
  LL_CONTEXT_ROOT_def LL_CONTEXT_DESTINATION_def LL_CONTEXT_SOURCE_def
  LL_CONTEXT_PARSER_def LL_CONTEXT_REWRITE_def LL_CONTEXT_FILTER_def LL_CONTEXT_LOG_def
  LL_CONTEXT_BLOCK_DEF_def LL_CONTEXT_BLOCK_REF_def LL_CONTEXT_BLOCK_CONTENT_def
  LL_CONTEXT_BLOCK_ARG_def LL_CONTEXT_PRAGMA_def LL_CONTEXT_FORMAT_def
  LL_CONTEXT_TEMPLATE_FUNC_def LL_CONTEXT_INNER_DEST_def LL_CONTEXT_INNER_SRC_def
  LL_CONTEXT_CLIENT_PROTO_def LL_CONTEXT_SERVER_PROTO_def

lemmas ll_token_defs =
  KW_INCLUDE_def LL_IDENTIFIER_def LL_STRING_def LL_TOKEN_def LL_PRAGMA_def LL_ERROR_def

subsection \<open>Context names\<close>

lemma context_round_trip_named:
  assumes "t \<in> {1..10} \<union> {12..18}"
  shows "\<exists>n. cfg_lexer_lookup_context_name_by_type t = Inr (Some n) \<and>
             cfg_lexer_lookup_context_type_by_name n = t"
proof -
  from assms have "t = 1 \<or> t = 2 \<or> t = 3 \<or> t = 4 \<or> t = 5 \<or> t = 6 \<or> t = 7 \<or> t = 8 \<or>
      t = 9 \<or> t = 10 \<or> t = 12 \<or> t = 13 \<or> t = 14 \<or> t = 15 \<or> t = 16 \<or> t = 17 \<or> t = 18"
    by simp presburger
  then show ?thesis
    by (elim disjE)
       (simp_all add: cfg_lexer_lookup_context_name_by_type_def
          cfg_lexer_lookup_context_type_by_name_def lexer_contexts_def)
qed

text \<open>
  C7. The round trip from a context type to its name and back fails at
  \<open>LL_CONTEXT_BLOCK_ARG\<close>: the table has no name for it (the call returns NULL), and
  no name is looked up to it. (It holds for the seventeen other contexts, see
  \<open>context_round_trip_named\<close>.)
\<close>

theorem C7_block_arg_has_no_name:
  "cfg_lexer_lookup_context_name_by_type LL_CONTEXT_BLOCK_ARG = Inr None \<and>
   (\<forall>name. cfg_lexer_lookup_context_type_by_name name \<noteq> LL_CONTEXT_BLOCK_ARG)"
  by (simp add: cfg_lexer_lookup_context_name_by_type_def
        cfg_lexer_lookup_context_type_by_name_def lexer_contexts_def LL_CONTEXT_BLOCK_ARG_def)

subsection \<open>Back-tick substitution\<close>

lemma subst_args_loop_None_iff:
  "subst_args_loop E globs defs args backtick ref result p = None \<longleftrightarrow>
   (backtick \<noteq> odd (count_list p (CHR 0x60)))"
  by (induction p arbitrary: backtick ref result) auto

lemma subst_args_loop_ref_irrelevant:
  "subst_args_loop E globs defs args False ref result p =
   subst_args_loop E globs defs args False ref' result p"
  by (induction p arbitrary: result) auto

lemma subst_args_loop_result:
  "subst_args_loop E globs defs args backtick ref (r0 @ result) p =
   map_option ((@) r0) (subst_args_loop E globs defs args backtick ref result p)"
  by (induction p arbitrary: backtick ref result) auto

lemma subst_args_loop_literal:
  "CHR 0x60 \<notin> set lit \<Longrightarrow>
   subst_args_loop E globs defs args False ref result (lit @ p) =
   subst_args_loop E globs defs args False ref (result @ lit) p"
  by (induction lit arbitrary: result) auto

lemma subst_args_loop_name:
  "CHR 0x60 \<notin> set name \<Longrightarrow>
   subst_args_loop E globs defs args True ref result (name @ p) =
   subst_args_loop E globs defs args True (ref @ name) result p"
  by (induction name arbitrary: ref) auto

lemma subst_args_loop_reference:
  assumes "CHR 0x60 \<notin> set name" "name \<noteq> []"
  shows "subst_args_loop E globs defs args False ref result (CHR 0x60 # name @ CHR 0x60 # p) =
         subst_args_loop E globs defs args False ref'
           (result @ (case subst_lookup E globs defs args name of
                        Some arg \<Rightarrow> arg | None \<Rightarrow> [])) p"
  using assms
  by (simp add: subst_args_loop_name subst_args_loop_ref_irrelevant[of _ _ _ _ name _ _ ref'])

lemma subst_args_loop_skip:
  "(backtick \<longleftrightarrow> odd (count_list pre (CHR 0x60))) \<Longrightarrow> (backtick \<longrightarrow> ref = ref') \<Longrightarrow>
   CHR 0x60 \<notin> set name \<Longrightarrow> name \<noteq> [] \<Longrightarrow> subst_lookup E globs defs args name = None \<Longrightarrow>
   subst_args_loop E globs defs args backtick ref result
     (pre @ CHR 0x60 # name @ CHR 0x60 # post) =
   subst_args_loop E globs defs args backtick ref' result (pre @ post)"
proof (induction pre arbitrary: backtick ref ref' result)
  case Nil
  then show ?case
    using subst_args_loop_reference[of name E globs defs args ref result post ref'] by simp
next
  case (Cons c pre)
  then show ?case by auto
qed

lemma odd_backticks_iff_open:
  "odd (count_list cptr (CHR 0x60)) \<longleftrightarrow>
   (\<exists>pre ref. cptr = pre @ CHR 0x60 # ref \<and> even (count_list pre (CHR 0x60)) \<and>
               CHR 0x60 \<notin> set ref)"
proof
  assume o: "odd (count_list cptr (CHR 0x60))"
  then have "CHR 0x60 \<in> set cptr"
    by (metis count_list_0_iff even_zero)
  then obtain pre ref where d: "cptr = pre @ CHR 0x60 # ref" "CHR 0x60 \<notin> set ref"
    using split_list_last by fastforce
  with o have "even (count_list pre (CHR 0x60))"
    by (simp add: count_list_0_iff)
  with d show "\<exists>pre ref. cptr = pre @ CHR 0x60 # ref \<and> even (count_list pre (CHR 0x60)) \<and>
      CHR 0x60 \<notin> set ref"
    by blast
next
  assume "\<exists>pre ref. cptr = pre @ CHR 0x60 # ref \<and> even (count_list pre (CHR 0x60)) \<and>
      CHR 0x60 \<notin> set ref"
  then show "odd (count_list cptr (CHR 0x60))"
    by (auto simp: count_list_0_iff)
qed

lemma subst_lookup_None_iff:
  "subst_lookup E globs defs args name = None \<longleftrightarrow>
   (\<forall>a. args = Some a \<longrightarrow> cfg_args_get E a name = None) \<and>
   (\<forall>d. defs = Some d \<longrightarrow> cfg_args_get E d name = None) \<and>
   (\<forall>g. globs = Some g \<longrightarrow> cfg_args_get E g name = None) \<and>
   g_getenv E name = None"
  by (auto simp: subst_lookup_def split: option.splits)

lemma subst_args_expand:
  assumes "CHR 0x60 \<notin> set lit" "name \<noteq> []" "CHR 0x60 \<notin> set name"
  shows "cfg_lexer_subst_args E globs defs args (lit @ CHR 0x60 # name @ CHR 0x60 # rest) =
         (case cfg_lexer_subst_args E globs defs args rest of
            None \<Rightarrow> None
          | Some (r, n) \<Rightarrow>
              Some (lit @ (case subst_lookup E globs defs args name of
                             Some arg \<Rightarrow> arg | None \<Rightarrow> []) @ r,
                    length lit + length (case subst_lookup E globs defs args name of
                                           Some arg \<Rightarrow> arg | None \<Rightarrow> []) + n))"
proof -
  let ?v = "case subst_lookup E globs defs args name of Some arg \<Rightarrow> arg | None \<Rightarrow> []"
  have "subst_args_loop E globs defs args False [] [] (lit @ CHR 0x60 # name @ CHR 0x60 # rest) =
        subst_args_loop E globs defs args False [] ([] @ lit) (CHR 0x60 # name @ CHR 0x60 # rest)"
    using assms(1) by (rule subst_args_loop_literal)
  also have "\<dots> = subst_args_loop E globs defs args False [] (([] @ lit) @ ?v) rest"
    using assms(3,2) by (rule subst_args_loop_reference)
  also have "\<dots> = subst_args_loop E globs defs args False [] ((lit @ ?v) @ []) rest"
    by simp
  also have "\<dots> = map_option ((@) (lit @ ?v)) (subst_args_loop E globs defs args False [] [] rest)"
    by (rule subst_args_loop_result)
  finally show ?thesis
    by (simp add: cfg_lexer_subst_args_def split: option.splits)
qed

text \<open>
  C6. \<open>cfg_lexer_subst_args\<close> returns NULL exactly when the buffer holds an odd number of
  back-ticks, that is, when a back-tick opens a reference (an even number of back-ticks
  before it) and no back-tick follows before the end of the buffer. A closed reference to
  a name that neither \<open>args\<close>, \<open>defs\<close>, \<open>globals\<close> nor the process environment has
  contributes nothing: the result, failure included, is that of the buffer without the
  reference.
\<close>

theorem C6_subst_args_fails_iff_unterminated:
  "(cfg_lexer_subst_args E globs defs args cptr = None \<longleftrightarrow>
      (\<exists>pre ref. cptr = pre @ CHR 0x60 # ref \<and> even (count_list pre (CHR 0x60)) \<and>
                  CHR 0x60 \<notin> set ref)) \<and>
   (even (count_list pre' (CHR 0x60)) \<and> name \<noteq> [] \<and> CHR 0x60 \<notin> set name \<and>
    (\<forall>a. args = Some a \<longrightarrow> cfg_args_get E a name = None) \<and>
    (\<forall>d. defs = Some d \<longrightarrow> cfg_args_get E d name = None) \<and>
    (\<forall>g. globs = Some g \<longrightarrow> cfg_args_get E g name = None) \<and>
    g_getenv E name = None \<longrightarrow>
    cfg_lexer_subst_args E globs defs args (pre' @ CHR 0x60 # name @ CHR 0x60 # post) =
    cfg_lexer_subst_args E globs defs args (pre' @ post))"
proof (intro conjI impI)
  have "cfg_lexer_subst_args E globs defs args cptr = None \<longleftrightarrow>
        subst_args_loop E globs defs args False [] [] cptr = None"
    by (simp add: cfg_lexer_subst_args_def split: option.splits)
  then show "cfg_lexer_subst_args E globs defs args cptr = None \<longleftrightarrow>
      (\<exists>pre ref. cptr = pre @ CHR 0x60 # ref \<and> even (count_list pre (CHR 0x60)) \<and>
                  CHR 0x60 \<notin> set ref)"
    by (simp only: subst_args_loop_None_iff odd_backticks_iff_open[symmetric]) simp
next
  assume a: "even (count_list pre' (CHR 0x60)) \<and> name \<noteq> [] \<and> CHR 0x60 \<notin> set name \<and>
    (\<forall>a. args = Some a \<longrightarrow> cfg_args_get E a name = None) \<and>
    (\<forall>d. defs = Some d \<longrightarrow> cfg_args_get E d name = None) \<and>
    (\<forall>g. globs = Some g \<longrightarrow> cfg_args_get E g name = None) \<and>
    g_getenv E name = None"
  then have "subst_lookup E globs defs args name = None"
    by (simp add: subst_lookup_None_iff)
  with a have "subst_args_loop E globs defs args False [] []
                 (pre' @ CHR 0x60 # name @ CHR 0x60 # post) =
               subst_args_loop E globs defs args False [] [] (pre' @ post)"
    by (intro subst_args_loop_skip) simp_all
  then show "cfg_lexer_subst_args E globs defs args (pre' @ CHR 0x60 # name @ CHR 0x60 # post) =
             cfg_lexer_subst_args E globs defs args (pre' @ post)"
    by (simp add: cfg_lexer_subst_args_def)
qed

theorem C6_subst_args_witness:
  "cfg_lexer_subst_args (script_env []) (Some [(''port'', ''514'')]) None None
     ''a`nope`b'' =
   cfg_lexer_subst_args (script_env []) (Some [(''port'', ''514'')]) None None ''ab'' \<and>
   cfg_lexer_subst_args (script_env []) (Some [(''port'', ''514'')]) None None ''ab'' =
     Some (''ab'', 2) \<and>
   cfg_lexer_subst_args (script_env []) (Some [(''port'', ''514'')]) None None ''a`nope'' = None"
proof -
  have "cfg_lexer_subst_args (script_env []) (Some [(''port'', ''514'')]) None None
          (''a'' @ CHR 0x60 # ''nope'' @ CHR 0x60 # ''b'') =
        cfg_lexer_subst_args (script_env []) (Some [(''port'', ''514'')]) None None (''a'' @ ''b'')"
    using C6_subst_args_fails_iff_unterminated
      [of "script_env []" "Some [(''port'', ''514'')]" None None _ "''a''" "''nope''" "''b''"]
    by (simp add: script_env_def cfg_args_get_def normalize_key_spec_def ascii_tolower_def)
  moreover have "cfg_lexer_subst_args (script_env []) (Some [(''port'', ''514'')]) None None
                   ''a`nope'' = None"
    using C6_subst_args_fails_iff_unterminated
      [of "script_env []" "Some [(''port'', ''514'')]" None None "''a`nope''"]
    by (simp add: Cons_eq_append_conv) 
  moreover have "cfg_lexer_subst_args (script_env []) (Some [(''port'', ''514'')]) None None
                   ''ab'' = Some (''ab'', 2)"
    by (simp add: cfg_lexer_subst_args_def)
  ultimately show ?thesis by simp
qed

text \<open>
  C9. A closed reference is replaced by the value of the first of \<open>args\<close>, \<open>defs\<close>,
  \<open>globals\<close> and the process environment that has the name, by nothing when none has it,
  and the text after it is substituted in turn; the length reported is that of the
  result. With \<open>globals\<close> holding \<open>host_name\<close>, \<open>defs\<close> and \<open>args\<close> holding \<open>port\<close>, the
  buffer of scenario S2 becomes \<open>dest(h1:6514)\<close> of length 13 (for a \<open>normalize_key\<close>
  that leaves \<open>host_name\<close> as it is).
\<close>

theorem C9_lookup_order:
  assumes "CHR 0x60 \<notin> set lit" and "name \<noteq> []" and "CHR 0x60 \<notin> set name"
  shows "(\<exists>v. cfg_lexer_subst_args E globs defs args (lit @ CHR 0x60 # name @ CHR 0x60 # rest) =
              (case cfg_lexer_subst_args E globs defs args rest of
                 None \<Rightarrow> None
               | Some (r, n) \<Rightarrow> Some (lit @ v @ r, length lit + length v + n)) \<and>
           (\<forall>a x. args = Some a \<and> cfg_args_get E a name = Some x \<longrightarrow> v = x) \<and>
           (\<forall>d x. (\<forall>a. args = Some a \<longrightarrow> cfg_args_get E a name = None) \<and>
                  defs = Some d \<and> cfg_args_get E d name = Some x \<longrightarrow> v = x) \<and>
           (\<forall>g x. (\<forall>a. args = Some a \<longrightarrow> cfg_args_get E a name = None) \<and>
                  (\<forall>d. defs = Some d \<longrightarrow> cfg_args_get E d name = None) \<and>
                  globs = Some g \<and> cfg_args_get E g name = Some x \<longrightarrow> v = x) \<and>
           (\<forall>x. (\<forall>a. args = Some a \<longrightarrow> cfg_args_get E a name = None) \<and>
                (\<forall>d. defs = Some d \<longrightarrow> cfg_args_get E d name = None) \<and>
                (\<forall>g. globs = Some g \<longrightarrow> cfg_args_get E g name = None) \<and>
                g_getenv E name = Some x \<longrightarrow> v = x) \<and>
           ((\<forall>a. args = Some a \<longrightarrow> cfg_args_get E a name = None) \<and>
            (\<forall>d. defs = Some d \<longrightarrow> cfg_args_get E d name = None) \<and>
            (\<forall>g. globs = Some g \<longrightarrow> cfg_args_get E g name = None) \<and>
            g_getenv E name = None \<longrightarrow> v = [])) \<and>
         (normalize_key E ''host_name'' = ''host_name'' \<longrightarrow>
          cfg_lexer_subst_args E (Some [(''host_name'', ''h1'')]) (Some [(''port'', ''514'')])
            (Some [(''port'', ''6514'')]) ''dest(`host_name`:`port`)'' =
          Some (''dest(h1:6514)'', 13))"
proof (intro conjI exI[where x = "case subst_lookup E globs defs args name of
                                   Some arg \<Rightarrow> arg | None \<Rightarrow> []"])
  show "cfg_lexer_subst_args E globs defs args (lit @ CHR 0x60 # name @ CHR 0x60 # rest) =
        (case cfg_lexer_subst_args E globs defs args rest of
           None \<Rightarrow> None
         | Some (r, n) \<Rightarrow>
             Some (lit @ (case subst_lookup E globs defs args name of
                            Some arg \<Rightarrow> arg | None \<Rightarrow> []) @ r,
                   length lit + length (case subst_lookup E globs defs args name of
                                          Some arg \<Rightarrow> arg | None \<Rightarrow> []) + n))"
    using assms by (rule subst_args_expand)
qed (auto simp: subst_lookup_def cfg_lexer_subst_args_def cfg_args_get_def split: option.splits)

theorem C9_lookup_order_witness:
  "cfg_lexer_subst_args (script_env []) (Some [(''host_name'', ''h1'')])
     (Some [(''port'', ''514'')]) (Some [(''port'', ''6514'')]) ''dest(`host_name`:`port`)'' =
   Some (''dest(h1:6514)'', 13)"
  using C9_lookup_order [of "''dest(''" "''host_name''" "script_env []"]
  by (simp add: script_env_def normalize_key_spec_def ascii_tolower_def)

subsection \<open>Keyword resolution\<close>

lemma kw_match_iff:
  "kw_match t k \<longleftrightarrow>
   length t = length k \<and>
   (\<forall>j<length t. if t ! j = CHR ''-'' \<or> t ! j = CHR ''_''
                   then k ! j = CHR ''_'' else t ! j = k ! j)"
proof (induction t k rule: kw_match.induct)
  case (4 t ts k ks)
  then show ?case
    by (auto simp: All_less_Suc2 nth_Cons split: nat.splits)
qed simp_all

text \<open>
  C8. The comparison of a candidate with a keyword spelling goes position by position: it
  succeeds exactly when the lengths are equal and at each position a \<open>-\<close> or \<open>_\<close> of
  the candidate meets \<open>_\<close> and any other character meets itself; so it succeeds only
  when the lengths are equal and at each position the characters are equal or the
  candidate's \<open>-\<close> meets \<open>_\<close>. \<open>flush-lines\<close> matches \<open>flush_lines\<close> and \<open>flush.lines\<close>
  does not, and with the entry \<open>flush_lines\<close> alone in the table of the only context
  frame (and allowed at the active version) \<open>cfg_lexer_lookup_keyword\<close> returns the
  entry's token for the first and \<open>LL_IDENTIFIER\<close> for the second.
\<close>

theorem C8_keyword_comparison:
  "(kw_match candidate spelling \<longleftrightarrow>
      length candidate = length spelling \<and>
      (\<forall>j<length candidate.
          if candidate ! j = CHR ''-'' \<or> candidate ! j = CHR ''_''
          then spelling ! j = CHR ''_'' else candidate ! j = spelling ! j)) \<and>
   (kw_match candidate spelling \<longrightarrow>
      length candidate = length spelling \<and>
      (\<forall>j<length candidate.
          candidate ! j = spelling ! j \<or>
          (candidate ! j = CHR ''-'' \<and> spelling ! j = CHR ''_''))) \<and>
   kw_match ''flush-lines'' ''flush_lines'' \<and>
   \<not> kw_match ''flush.lines'' ''flush_lines'' \<and>
   (context_stack self = [c] \<and> ctx_keywords c = Some [k] \<and> kw_name k = ''flush_lines'' \<and>
    cfg_check_current_config_version (configuration self) (kw_req_version k) \<longrightarrow>
    fst (cfg_lexer_lookup_keyword self yylval yylloc ''flush-lines'') = kw_token k \<and>
    fst (cfg_lexer_lookup_keyword self yylval yylloc ''flush.lines'') = LL_IDENTIFIER)"
proof (intro conjI impI)
  show "kw_match candidate spelling \<longleftrightarrow>
      length candidate = length spelling \<and>
      (\<forall>j<length candidate.
          if candidate ! j = CHR ''-'' \<or> candidate ! j = CHR ''_''
          then spelling ! j = CHR ''_'' else candidate ! j = spelling ! j)"
    by (rule kw_match_iff)
next
  assume "kw_match candidate spelling"
  then show "length candidate = length spelling"
    by (simp add: kw_match_iff)
next
  assume m: "kw_match candidate spelling"
  show "\<forall>j<length candidate.
          candidate ! j = spelling ! j \<or>
          (candidate ! j = CHR ''-'' \<and> spelling ! j = CHR ''_'')"
  proof (intro allI impI)
    fix j assume "j < length candidate"
    with m have "if candidate ! j = CHR ''-'' \<or> candidate ! j = CHR ''_''
          then spelling ! j = CHR ''_'' else candidate ! j = spelling ! j"
      by (simp add: kw_match_iff)
    then show "candidate ! j = spelling ! j \<or>
          (candidate ! j = CHR ''-'' \<and> spelling ! j = CHR ''_'')"
      by (auto split: if_splits)
  qed
next
  show "kw_match ''flush-lines'' ''flush_lines''" by simp
next
  show "\<not> kw_match ''flush.lines'' ''flush_lines''" by simp
next
  assume a: "context_stack self = [c] \<and> ctx_keywords c = Some [k] \<and>
    kw_name k = ''flush_lines'' \<and>
    cfg_check_current_config_version (configuration self) (kw_req_version k)"
  then show "fst (cfg_lexer_lookup_keyword self yylval yylloc ''flush-lines'') = kw_token k"
    by (simp add: cfg_lexer_lookup_keyword_def CFG_KEYWORD_STOP_def)
  from a show "fst (cfg_lexer_lookup_keyword self yylval yylloc ''flush.lines'') = LL_IDENTIFIER"
    by (simp add: cfg_lexer_lookup_keyword_def CFG_KEYWORD_STOP_def)
qed

theorem C8_keyword_comparison_witness:
  "kw_match ''flush-lines'' ''flush_lines'' \<and>
   length ''flush-lines'' = length ''flush_lines'' \<and>
   fst (cfg_lexer_lookup_keyword (example_lexer LL_CONTEXT_ROOT (Some [flush_lines_keyword]))
          example_yylval None ''flush-lines'') = 10100 \<and>
   fst (cfg_lexer_lookup_keyword (example_lexer LL_CONTEXT_ROOT (Some [flush_lines_keyword]))
          example_yylval None ''flush.lines'') = LL_IDENTIFIER"
  using C8_keyword_comparison
    [of "''flush-lines''" "''flush_lines''"
        "example_lexer LL_CONTEXT_ROOT (Some [flush_lines_keyword])"
        "\<lparr>ctx_type = LL_CONTEXT_ROOT, ctx_keywords = Some [flush_lines_keyword],
          ctx_desc = ''example''\<rparr>"
        flush_lines_keyword example_yylval None]
  by (simp add: example_lexer_def flush_lines_keyword_def cfg_check_current_config_version_def)





subsection \<open>Registration of block generators\<close>

lemma find_generator_loop_None_iff:
  "find_generator_loop l context name = None \<longleftrightarrow>
   \<not> (\<exists>gen\<in>set l. gen_name gen = name \<and> (gen_context gen = context \<or> gen_context gen = 0))"
  by (induction l) auto

text \<open>
  C4 as stated fails: a lexer whose only generator is \<open>foo\<close> for any context (0) has no
  entry with the pair (source, \<open>foo\<close>), and the registration of \<open>foo\<close> for the source
  context is rejected all the same: the list is unchanged, the debug message is sent
  and the destructor is called on the data.
\<close>

theorem C4_any_context_entry_rejects:
  "generators any_foo_lexer = [any_foo_generator] \<and>
   gen_context any_foo_generator \<noteq> LL_CONTEXT_SOURCE \<and>
   cfg_lexer_register_block_generator any_foo_lexer LL_CONTEXT_SOURCE ''foo'' 4 5 6 =
     Inr (any_foo_lexer
            \<lparr>msgs := [(EVT_PRI_DEBUG,
                       ''Attempted to register the same generator multiple times, ignoring'',
                       [evt_tag_str ''context'' (Some ''source''),
                        evt_tag_str ''name'' (Some ''foo'')])],
             destroy_calls := [(6, 5)]\<rparr>)"
  by (simp add: any_foo_lexer_def any_foo_generator_def example_lexer_def
        cfg_lexer_register_block_generator_def cfg_lexer_find_generator_def
        cfg_lexer_lookup_context_name_by_type_def lexer_contexts_def LL_CONTEXT_SOURCE_def)

text \<open>
  C4, amended. For a context of the name table, \<open>cfg_lexer_register_block_generator\<close>
  rejects the registration if and only if \<open>cfg_lexer_find_generator\<close> finds an entry for
  the context and name, that is, an entry of the same name whose context is the
  incoming one or 0 (any). A rejection leaves the generator list (and all but the two
  logs) unchanged, sends one message, of debug priority, and calls \<open>generator_data_free\<close>
  once, on the incoming data; otherwise the new generator is added at the end of the
  list and nothing else changes.
\<close>

theorem C4_register_rejects_iff_found:
  assumes "0 \<le> context" and "context < 19"
  shows "(cfg_lexer_find_generator self context name \<noteq> None \<longleftrightarrow>
            (\<exists>gen\<in>set (generators self).
                gen_name gen = name \<and> (gen_context gen = context \<or> gen_context gen = 0))) \<and>
         (cfg_lexer_find_generator self context name \<noteq> None \<longrightarrow>
            (\<exists>self' m. cfg_lexer_register_block_generator self context name generator
                          generator_data generator_data_free = Inr self' \<and>
                        generators self' = generators self \<and>
                        msgs self' = msgs self @ [m] \<and> fst m = EVT_PRI_DEBUG \<and>
                        destroy_calls self' =
                          destroy_calls self @ [(generator_data_free, generator_data)] \<and>
                        self' = self\<lparr>msgs := msgs self', destroy_calls := destroy_calls self'\<rparr>)) \<and>
         (cfg_lexer_find_generator self context name = None \<longrightarrow>
            cfg_lexer_register_block_generator self context name generator generator_data
              generator_data_free =
            Inr (self\<lparr>generators := generators self @
                   [\<lparr>gen_context = context, gen_name = name, gen_generator = generator,
                     gen_generator_data = generator_data,
                     gen_generator_data_free = generator_data_free\<rparr>]\<rparr>))"
proof (intro conjI impI)
  show "cfg_lexer_find_generator self context name \<noteq> None \<longleftrightarrow>
        (\<exists>gen\<in>set (generators self).
            gen_name gen = name \<and> (gen_context gen = context \<or> gen_context gen = 0))"
    by (simp add: cfg_lexer_find_generator_def find_generator_loop_None_iff)
next
  assume f: "cfg_lexer_find_generator self context name \<noteq> None"
  from assms obtain context_name where
    n: "cfg_lexer_lookup_context_name_by_type context = Inr context_name"
    by (simp add: cfg_lexer_lookup_context_name_by_type_def lexer_contexts_def)
  from f n show "\<exists>self' m. cfg_lexer_register_block_generator self context name generator
                          generator_data generator_data_free = Inr self' \<and>
                        generators self' = generators self \<and>
                        msgs self' = msgs self @ [m] \<and> fst m = EVT_PRI_DEBUG \<and>
                        destroy_calls self' =
                          destroy_calls self @ [(generator_data_free, generator_data)] \<and>
                        self' = self\<lparr>msgs := msgs self', destroy_calls := destroy_calls self'\<rparr>"
    by (auto simp: cfg_lexer_register_block_generator_def)
next
  assume "cfg_lexer_find_generator self context name = None"
  then show "cfg_lexer_register_block_generator self context name generator generator_data
              generator_data_free =
            Inr (self\<lparr>generators := generators self @
                   [\<lparr>gen_context = context, gen_name = name, gen_generator = generator,
                     gen_generator_data = generator_data,
                     gen_generator_data_free = generator_data_free\<rparr>]\<rparr>)"
    by (simp add: cfg_lexer_register_block_generator_def)
qed

theorem C4_register_witness:
  "cfg_lexer_find_generator any_foo_lexer LL_CONTEXT_SOURCE ''foo'' \<noteq> None \<and>
   cfg_lexer_find_generator any_foo_lexer LL_CONTEXT_SOURCE ''bar'' = None \<and>
   cfg_lexer_register_block_generator any_foo_lexer LL_CONTEXT_SOURCE ''bar'' 4 5 6 =
     Inr (any_foo_lexer\<lparr>generators :=
            [any_foo_generator,
             \<lparr>gen_context = LL_CONTEXT_SOURCE, gen_name = ''bar'', gen_generator = 4,
              gen_generator_data = 5, gen_generator_data_free = 6\<rparr>]\<rparr>)"
proof -
  have r: "0 \<le> LL_CONTEXT_SOURCE" "LL_CONTEXT_SOURCE < 19"
    by (simp_all add: LL_CONTEXT_SOURCE_def)
  have g: "generators any_foo_lexer = [any_foo_generator]"
    by (simp add: any_foo_lexer_def)
  have n: "gen_name any_foo_generator = ''foo''" "gen_context any_foo_generator = 0"
    by (simp_all add: any_foo_generator_def)
  show ?thesis
    using C4_register_rejects_iff_found [OF r, of any_foo_lexer "''foo''"]
      C4_register_rejects_iff_found [OF r, of any_foo_lexer "''bar''" 4 5 6]
    by (simp add: g n)
qed

subsection \<open>The variable arguments of a block\<close>

lemma cfg_args_foreach_varargs:
  "cfg_args_foreach args (resolve_unknown_blockargs_as_varargs E defs) varargs =
   varargs @ varargs_spec E defs args"
  by (induction args arbitrary: varargs)
     (auto simp: cfg_args_foreach_def varargs_spec_def resolve_unknown_blockargs_as_varargs_def)

lemma fill_varargs_eq:
  "fill_varargs E block args =
   AList.update (normalize_key E ''__VARARGS__'') (varargs_spec E (arg_defs block) args) args"
  by (simp add: fill_varargs_def cfg_args_foreach_varargs cfg_args_set_def)

lemma varargs_spec_folds_entry:
  assumes "(key, old) \<in> set args" and "cfg_args_get E defs key = None"
  shows "\<exists>before after. varargs_spec E defs args = before @ key @ ''('' @ old @ '') '' @ after"
proof -
  from assms(1) obtain xs ys where "args = xs @ (key, old) # ys"
    by (auto simp: in_set_conv_decomp)
  with assms(2) have "varargs_spec E defs args =
      varargs_spec E defs xs @ key @ ''('' @ old @ '') '' @ varargs_spec E defs ys"
    by (simp add: varargs_spec_def)
  then show ?thesis by blast
qed

text \<open>
  C10. \<open>_fill_varargs\<close> sets the key \<open>__VARARGS__\<close> (as \<open>cfg_args_set\<close> stores a key:
  normalised) to the concatenation, in the order of iteration, of \<open>name(value)\<close> and a
  space for every argument whose key \<open>arg_defs\<close> does not have; every other key keeps
  its value, and a value the caller had stored under the key is replaced. Such an entry of
  the caller, when \<open>arg_defs\<close> does not have the key, is itself part of the concatenation.
  \<open>cfg_lexer_subst_args\<close> reads the new value through \<open>cfg_args_get\<close>.
  \<open>cfg_block_generate\<close> leaves \<open>args\<close> so for every context of the name table, whether the
  substitution succeeds or not.
\<close>

theorem C10_fill_varargs:
  "fill_varargs E block args =
     AList.update (normalize_key E ''__VARARGS__'') (varargs_spec E (arg_defs block) args) args \<and>
   map_of (fill_varargs E block args) (normalize_key E ''__VARARGS__'') =
     Some (varargs_spec E (arg_defs block) args) \<and>
   (\<forall>key. key \<noteq> normalize_key E ''__VARARGS__'' \<longrightarrow>
          map_of (fill_varargs E block args) key = map_of args key) \<and>
   (map_of args ''__VARARGS__'' = None \<or>
    normalize_key E ''__VARARGS__'' = ''__VARARGS__'' \<longrightarrow>
      cfg_args_get E (fill_varargs E block args) ''__VARARGS__'' =
        Some (varargs_spec E (arg_defs block) args)) \<and>
   (\<forall>old. (normalize_key E ''__VARARGS__'', old) \<in> set args \<and>
          cfg_args_get E (arg_defs block) (normalize_key E ''__VARARGS__'') = None \<longrightarrow>
          (\<exists>before after.
              varargs_spec E (arg_defs block) args =
                before @ normalize_key E ''__VARARGS__'' @ ''('' @ old @ '') '' @ after)) \<and>
   (0 \<le> context \<and> context < 19 \<longrightarrow>
      (\<exists>ok lexer'. cfg_block_generate E lexer context name args block =
                     Inr (ok, lexer', fill_varargs E block args)))"
proof (intro conjI allI impI)
  show "fill_varargs E block args =
     AList.update (normalize_key E ''__VARARGS__'') (varargs_spec E (arg_defs block) args) args"
    by (rule fill_varargs_eq)
next
  show "map_of (fill_varargs E block args) (normalize_key E ''__VARARGS__'') =
     Some (varargs_spec E (arg_defs block) args)"
    by (simp add: fill_varargs_eq update_conv')
next
  fix key assume "key \<noteq> normalize_key E ''__VARARGS__''"
  then show "map_of (fill_varargs E block args) key = map_of args key"
    by (simp add: fill_varargs_eq update_conv')
next
  assume "map_of args ''__VARARGS__'' = None \<or>
    normalize_key E ''__VARARGS__'' = ''__VARARGS__''"
  then show "cfg_args_get E (fill_varargs E block args) ''__VARARGS__'' =
        Some (varargs_spec E (arg_defs block) args)"
    by (auto simp: cfg_args_get_def fill_varargs_eq update_conv' split: option.splits)
next
  fix old
  assume "(normalize_key E ''__VARARGS__'', old) \<in> set args \<and>
          cfg_args_get E (arg_defs block) (normalize_key E ''__VARARGS__'') = None"
  then show "\<exists>before after.
              varargs_spec E (arg_defs block) args =
                before @ normalize_key E ''__VARARGS__'' @ ''('' @ old @ '') '' @ after"
    by (intro varargs_spec_folds_entry) simp_all
next
  assume "0 \<le> context \<and> context < 19"
  then obtain context_name where
    "cfg_lexer_lookup_context_name_by_type context = Inr context_name"
    by (simp add: cfg_lexer_lookup_context_name_by_type_def lexer_contexts_def)
  then show "\<exists>ok lexer'. cfg_block_generate E lexer context name args block =
                     Inr (ok, lexer', fill_varargs E block args)"
    by (auto simp: cfg_block_generate_def Let_def split: option.splits prod.splits)
qed

theorem C10_fill_varargs_witness:
  "fill_varargs (script_env []) example_block example_args =
     [(''path'', ''/tmp/x''), (''__varargs__'', ''__varargs__(old) flags(no_parse) ''),
      (''flags'', ''no_parse'')] \<and>
   cfg_args_get (script_env []) (fill_varargs (script_env []) example_block example_args)
     ''__VARARGS__'' = Some ''__varargs__(old) flags(no_parse) '' \<and>
   cfg_block_generate (script_env []) (example_lexer LL_CONTEXT_SOURCE None) LL_CONTEXT_SOURCE
     ''myblk'' example_args example_block =
     Inr (True, example_lexer LL_CONTEXT_SOURCE None,
          fill_varargs (script_env []) example_block example_args)"
proof -
  have v: "varargs_spec (script_env []) (arg_defs example_block) example_args =
           ''__varargs__(old) flags(no_parse) ''"
    by (simp add: varargs_spec_def example_block_def example_args_def cfg_args_get_def
          script_env_def normalize_key_spec_def ascii_tolower_def)
  have "normalize_key_spec ''__VARARGS__'' = ''__varargs__''"
    by code_simp
  then have k: "normalize_key (script_env []) ''__VARARGS__'' = ''__varargs__''"
    by (simp add: script_env_def)
  have m: "map_of example_args ''__VARARGS__'' = None"
    by (simp add: example_args_def)
  have f: "fill_varargs (script_env []) example_block example_args =
     [(''path'', ''/tmp/x''), (''__varargs__'', ''__varargs__(old) flags(no_parse) ''),
      (''flags'', ''no_parse'')]"
  proof -
    have "fill_varargs (script_env []) example_block example_args =
          AList.update (normalize_key (script_env []) ''__VARARGS__'')
            (varargs_spec (script_env []) (arg_defs example_block) example_args) example_args"
      using C10_fill_varargs [of "script_env []" example_block example_args] by blast
    then show ?thesis
      unfolding v k by (simp add: example_args_def)
  qed
  have g: "cfg_args_get (script_env [])
             (fill_varargs (script_env []) example_block example_args) ''__VARARGS__'' =
           Some ''__varargs__(old) flags(no_parse) ''"
  proof -
    have "cfg_args_get (script_env [])
            (fill_varargs (script_env []) example_block example_args) ''__VARARGS__'' =
          Some (varargs_spec (script_env []) (arg_defs example_block) example_args)"
      using C10_fill_varargs [of "script_env []" example_block example_args] m by blast
    then show ?thesis
      unfolding v .
  qed
  have b: "cfg_block_generate (script_env []) (example_lexer LL_CONTEXT_SOURCE None)
             LL_CONTEXT_SOURCE ''myblk'' example_args example_block =
           Inr (True, example_lexer LL_CONTEXT_SOURCE None,
                fill_varargs (script_env []) example_block example_args)"
    unfolding cfg_block_generate_def f
    by (simp add: cfg_args_get_def cfg_lexer_subst_args_def subst_lookup_def
          cfg_lexer_lookup_context_name_by_type_def lexer_contexts_def LL_CONTEXT_SOURCE_def
          example_block_def example_lexer_def script_env_def
          normalize_key_spec_def ascii_tolower_def)
  from f g b show ?thesis by simp
qed

subsection \<open>The token pump\<close>



lemma lex_fetch_injected_location:
  assumes "lex_fetch E self yylval yylloc = (tok, yylval1, yylloc1, True, self1)"
  shows "yylloc1 = lloc (include_stack self ! include_depth self)"
  using assms
  by (auto simp: lex_fetch_def Let_def split: prod.splits option.splits)








text \<open>
  C3 as stated fails: in a pragma context the scanner delivers the \<open>include\<close> keyword, and
  \<open>cfg_lexer_lex\<close> returns the keyword token, which is not \<open>LL_ERROR\<close>.
\<close>

theorem C3_include_in_pragma_is_returned:
  "map_option fst
     (cfg_lexer_lex (script_env [(KW_INCLUDE, ''include'')]) 1
        (example_lexer LL_CONTEXT_PRAGMA None) example_yylval example_lloc) =
   Some KW_INCLUDE \<and>
   KW_INCLUDE \<noteq> LL_ERROR"
  by (simp add: lex_fetch_def lex_finish_def script_env_def script_scanner_def
        example_lexer_def example_yylval_def example_lloc_def
        cfg_lexer_get_context_type_def cfg_lexer_find_generator_def
        ll_token_defs ll_context_defs Let_def)

lemma lex_fetch_include_file_irrelevant:
  "lex_fetch (E\<lparr>cfg_lexer_include_file := f\<rparr>) self yylval yylloc = lex_fetch E self yylval yylloc"
  by (simp add: lex_fetch_def Let_def split: prod.splits option.splits)

lemma lex_finish_include_file_irrelevant:
  "lex_finish (E\<lparr>cfg_lexer_include_file := f\<rparr>) injected self = lex_finish E injected self"
  by (simp add: lex_finish_def)

text \<open>
  C3, amended. When the token at hand (injected, or read by the scanner) is the
  \<open>include\<close> keyword and the current context type is pragma, \<open>cfg_lexer_lex\<close> does no
  include processing: with any fuel it returns the keyword token itself, with the value
  and location at hand, after the version and echo steps of an ordinary token; the
  suppression counter is not written, and \<open>cfg_lexer_include_file\<close> is not called (the
  result is the same whatever that function is).
\<close>

theorem C3_include_in_pragma:
  assumes "lex_fetch E self yylval yylloc = (KW_INCLUDE, yylval1, yylloc1, injected, self1)"
    and "cfg_lexer_get_context_type self1 = LL_CONTEXT_PRAGMA"
  shows "cfg_lexer_lex E (Suc n) self yylval yylloc =
           Some (KW_INCLUDE, yylval1, yylloc1, lex_finish E injected self1, []) \<and>
         (\<forall>f. cfg_lexer_lex (E\<lparr>cfg_lexer_include_file := f\<rparr>) (Suc n) self yylval yylloc =
              cfg_lexer_lex E (Suc n) self yylval yylloc)"
proof -
  have t: "KW_INCLUDE \<noteq> LL_PRAGMA" "KW_INCLUDE \<noteq> LL_IDENTIFIER"
    by (simp_all add: ll_token_defs)
  have r: "cfg_lexer_lex E' (Suc n) self yylval yylloc =
           Some (KW_INCLUDE, yylval1, yylloc1, lex_finish E' injected self1, [])"
    if "lex_fetch E' self yylval yylloc = (KW_INCLUDE, yylval1, yylloc1, injected, self1)"
    for E'
    unfolding cfg_lexer_lex.simps that using t assms(2) by simp
  have "cfg_lexer_lex (E\<lparr>cfg_lexer_include_file := f\<rparr>) (Suc n) self yylval yylloc =
        cfg_lexer_lex E (Suc n) self yylval yylloc" for f
    using r [of E] r [of "E\<lparr>cfg_lexer_include_file := f\<rparr>"] assms(1)
    by (simp only: lex_fetch_include_file_irrelevant lex_finish_include_file_irrelevant)
  with r [OF assms(1)] show ?thesis by blast
qed

theorem C3_include_in_pragma_witness:
  "cfg_lexer_lex (script_env [(KW_INCLUDE, ''include'')]) (Suc 0)
     (example_lexer LL_CONTEXT_PRAGMA None) example_yylval example_lloc =
   Some (KW_INCLUDE, \<lparr>yy_type = KW_INCLUDE, yy_token = 0, yy_cptr = ''include''\<rparr>,
         \<lparr>first_line = 1, first_column = 1, last_line = 1, last_column = 8, level = 0\<rparr>,
         (example_lexer LL_CONTEXT_PRAGMA None)
           \<lparr>state := 1, token_text := ''include'', preprocess_output := ''include'',
            include_stack :=
              [\<lparr>level_name = ''example.conf'',
                lloc = \<lparr>first_line = 1, first_column = 1, last_line = 1, last_column = 8,
                         level = 0\<rparr>\<rparr>]\<rparr>,
         [])"
proof -
  let ?E = "script_env [(KW_INCLUDE, ''include'')]"
  let ?L = "example_lexer LL_CONTEXT_PRAGMA None"
  let ?l = "\<lparr>first_line = 1, first_column = 1, last_line = 1, last_column = 8, level = 0\<rparr>"
  let ?L1 = "?L\<lparr>state := 1, token_text := ''include'',
               include_stack := [\<lparr>level_name = ''example.conf'', lloc = ?l\<rparr>]\<rparr>"
  have f: "lex_fetch ?E ?L example_yylval example_lloc =
           (KW_INCLUDE, \<lparr>yy_type = KW_INCLUDE, yy_token = 0, yy_cptr = ''include''\<rparr>, ?l,
            False, ?L1)"
    by (simp add: lex_fetch_def script_env_def script_scanner_def example_lexer_def
          example_yylval_def cfg_lexer_get_context_type_def ll_context_defs Let_def)
  have c: "cfg_lexer_get_context_type ?L1 = LL_CONTEXT_PRAGMA"
    by (simp add: cfg_lexer_get_context_type_def example_lexer_def)
  have e: "lex_finish ?E False ?L1 = ?L1\<lparr>preprocess_output := ''include''\<rparr>"
    by (simp add: lex_finish_def example_lexer_def)
  from C3_include_in_pragma [OF f c, of 0] show ?thesis
    unfolding e by (simp del: cfg_lexer_lex.simps add: example_lexer_def)
qed

subsection \<open>The suppression counter\<close>













end
